theory Spec2Isabelle
  imports Complex_Main
begin

section \<open>Results and errors\<close>

text \<open>
  The script has no exception handler of its own, so every exception of the
  framework leaves the function that met it.  A function of the script is a
  function into \<open>py_error + 'a\<close>: \<open>Inl\<close> is the exception, \<open>Inr\<close> the value.
\<close>

datatype py_error =
  FileNotFoundError | IndexError | RuntimeError | TypeError | ValueError | ZeroDivisionError

definition and_then :: "py_error + 'a \<Rightarrow> ('a \<Rightarrow> py_error + 'b) \<Rightarrow> py_error + 'b" where
  "and_then r f = (case r of Inl e \<Rightarrow> Inl e | Inr v \<Rightarrow> f v)"

section \<open>Tensors\<close>

text \<open>
  A tensor is its shape and its entries in row-major order.  Entries of a float
  tensor are real numbers here (no rounding, no NaN); entries of an index tensor are
  integers or naturals.  Every operation below returns a contiguous tensor.
\<close>

record 'a tensor =
  shape :: "nat list"
  data :: "'a list"

definition numel :: "nat list \<Rightarrow> nat" where
  "numel s = prod_list s"

definition wf_tensor :: "'a tensor \<Rightarrow> bool" where
  "wf_tensor t \<longleftrightarrow> length (data t) = numel (shape t)"

text \<open>\<open>torch.zeros(*s)\<close>\<close>

definition zeros :: "nat list \<Rightarrow> real tensor" where
  "zeros s = \<lparr>shape = s, data = replicate (numel s) 0\<rparr>"

text \<open>
  \<open>t.view(*dims)\<close>.  One entry of \<open>dims\<close> may be \<open>-1\<close>; it is inferred from the
  number of elements.  When the other entries multiply to 0 the inferred entry is
  ambiguous and torch raises, also for a tensor of 0 elements.
\<close>

definition infer_size :: "int list \<Rightarrow> nat \<Rightarrow> py_error + nat list" where
  "infer_size dims n =
     (if \<exists>d \<in> set dims. d < - 1 then Inl RuntimeError
      else if 1 < count_list dims (- 1) then Inl RuntimeError
      else
        let newsize = prod_list (map nat (filter (\<lambda>d. d \<noteq> - 1) dims)) in
        if - 1 \<in> set dims then
          (if newsize = 0 then Inl RuntimeError
           else if n mod newsize = 0
             then Inr (map (\<lambda>d. if d = - 1 then n div newsize else nat d) dims)
             else Inl RuntimeError)
        else if n = newsize then Inr (map nat dims)
        else Inl RuntimeError)"

definition view :: "'a tensor \<Rightarrow> int list \<Rightarrow> py_error + 'a tensor" where
  "view t dims =
     and_then (infer_size dims (numel (shape t))) (\<lambda>s. Inr (t\<lparr>shape := s\<rparr>))"

text \<open>\<open>t.flatten()\<close>\<close>

definition flatten :: "'a tensor \<Rightarrow> 'a tensor" where
  "flatten t = t\<lparr>shape := [numel (shape t)]\<rparr>"

text \<open>\<open>torch.unsqueeze(t, i)\<close> for \<open>i \<ge> 0\<close>\<close>

definition unsqueeze :: "'a tensor \<Rightarrow> nat \<Rightarrow> py_error + 'a tensor" where
  "unsqueeze t i =
     (if length (shape t) < i then Inl IndexError
      else Inr (t\<lparr>shape := take i (shape t) @ [1] @ drop i (shape t)\<rparr>))"

text \<open>\<open>F.relu\<close> and \<open>F.sigmoid\<close>, element by element\<close>

definition relu :: "real tensor \<Rightarrow> real tensor" where
  "relu t = t\<lparr>data := map (max 0) (data t)\<rparr>"

definition sigmoid :: "real tensor \<Rightarrow> real tensor" where
  "sigmoid t = t\<lparr>data := map (\<lambda>v. 1 / (1 + exp (- v))) (data t)\<rparr>"

subsection \<open>Convolution\<close>

text \<open>
  \<open>nn.Conv2d(in_channels, out_channels, kernel_size, stride, padding)\<close>.  The weight
  has shape (out, in, k, k) and the bias shape (out): both are functions of the
  indices, so that a layer cannot hold a weight of the wrong shape.
\<close>

record conv2d =
  in_channels :: nat
  out_channels :: nat
  kernel_size :: nat
  stride :: nat
  padding :: nat
  conv_weight :: "nat \<Rightarrow> nat \<Rightarrow> nat \<Rightarrow> nat \<Rightarrow> real"
  conv_bias :: "nat \<Rightarrow> real"

text \<open>Entry (n, c, r, q) of the zero-padded input of shape (N, C, H, W).\<close>

definition padded_at ::
  "real list \<Rightarrow> nat \<Rightarrow> nat \<Rightarrow> nat \<Rightarrow> nat \<Rightarrow> nat \<Rightarrow> nat \<Rightarrow> nat \<Rightarrow> nat \<Rightarrow> real" where
  "padded_at xs C H W p n c r q =
     (if p \<le> r \<and> r < H + p \<and> p \<le> q \<and> q < W + p
      then xs ! (((n * C + c) * H + (r - p)) * W + (q - p)) else 0)"

definition conv2d_batched :: "conv2d \<Rightarrow> real tensor \<Rightarrow> py_error + real tensor" where
  "conv2d_batched l x =
     (case shape x of
        [N, C, H, W] \<Rightarrow>
          let k = kernel_size l; s = stride l; p = padding l; Co = out_channels l in
          if s = 0 \<or> C \<noteq> in_channels l then Inl RuntimeError
          else if H + 2 * p < k \<or> W + 2 * p < k then Inl RuntimeError
          else
            let Ho = (H + 2 * p - k) div s + 1; Wo = (W + 2 * p - k) div s + 1 in
            Inr \<lparr>shape = [N, Co, Ho, Wo],
                 data = map (\<lambda>t.
                   let j = t mod Wo; i = (t div Wo) mod Ho;
                       co = (t div (Wo * Ho)) mod Co; n = t div (Wo * Ho * Co)
                   in conv_bias l co +
                      (\<Sum>ci\<leftarrow>[0..<C]. \<Sum>di\<leftarrow>[0..<k]. \<Sum>dj\<leftarrow>[0..<k].
                         conv_weight l co ci di dj *
                         padded_at (data x) C H W p n ci (i * s + di) (j * s + dj)))
                   [0..<N * Co * Ho * Wo]\<rparr>
      | _ \<Rightarrow> Inl RuntimeError)"

text \<open>
  The call of the layer.  A 4-D input is a batch; a 3-D input is one unbatched
  sample, run as a batch of one; every other rank is refused.
\<close>

definition Conv2d_forward :: "conv2d \<Rightarrow> real tensor \<Rightarrow> py_error + real tensor" where
  "Conv2d_forward l x =
     (case shape x of
        [N, C, H, W] \<Rightarrow> conv2d_batched l x
      | [C, H, W] \<Rightarrow>
          and_then (conv2d_batched l (x\<lparr>shape := [1, C, H, W]\<rparr>))
            (\<lambda>y. Inr (y\<lparr>shape := tl (shape y)\<rparr>))
      | _ \<Rightarrow> Inl RuntimeError)"

subsection \<open>Max pooling\<close>

text \<open>
  \<open>F.max_pool2d(x, k)\<close>: a window of k by k, stride k, no padding, sizes rounded
  down.  An output of a zero height or width is refused, and so is an input whose
  channel, height or width is 0.
\<close>

definition max_pool2d_batched :: "real tensor \<Rightarrow> nat \<Rightarrow> py_error + real tensor" where
  "max_pool2d_batched x k =
     (case shape x of
        [N, C, H, W] \<Rightarrow>
          if k = 0 \<or> C = 0 \<or> H < k \<or> W < k then Inl RuntimeError
          else
            let Ho = (H - k) div k + 1; Wo = (W - k) div k + 1 in
            Inr \<lparr>shape = [N, C, Ho, Wo],
                 data = map (\<lambda>t.
                   let j = t mod Wo; i = (t div Wo) mod Ho;
                       c = (t div (Wo * Ho)) mod C; n = t div (Wo * Ho * C)
                   in Max (set (concat (map (\<lambda>di. map (\<lambda>dj.
                        data x ! (((n * C + c) * H + (i * k + di)) * W + (j * k + dj)))
                        [0..<k]) [0..<k]))))
                   [0..<N * C * Ho * Wo]\<rparr>
      | _ \<Rightarrow> Inl RuntimeError)"

definition max_pool2d :: "real tensor \<Rightarrow> nat \<Rightarrow> py_error + real tensor" where
  "max_pool2d x k =
     (case shape x of
        [N, C, H, W] \<Rightarrow> max_pool2d_batched x k
      | [C, H, W] \<Rightarrow>
          and_then (max_pool2d_batched (x\<lparr>shape := [1, C, H, W]\<rparr>) k)
            (\<lambda>y. Inr (y\<lparr>shape := tl (shape y)\<rparr>))
      | _ \<Rightarrow> Inl RuntimeError)"

subsection \<open>Linear layer\<close>

text \<open>
  \<open>nn.Linear(in_features, out_features)\<close>: the last dimension of the input must be
  \<open>in_features\<close> and is replaced by \<open>out_features\<close>.
\<close>

record linear =
  in_features :: nat
  out_features :: nat
  fc_weight :: "nat \<Rightarrow> nat \<Rightarrow> real"
  fc_bias :: "nat \<Rightarrow> real"

definition Linear_forward :: "linear \<Rightarrow> real tensor \<Rightarrow> py_error + real tensor" where
  "Linear_forward l x =
     (if shape x = [] then Inl RuntimeError
      else if last (shape x) \<noteq> in_features l then Inl RuntimeError
      else
        let rows = numel (butlast (shape x)); m = in_features l; k = out_features l in
        Inr \<lparr>shape = butlast (shape x) @ [k],
             data = map (\<lambda>t.
               fc_bias l (t mod k) +
               (\<Sum>i\<leftarrow>[0..<m]. fc_weight l (t mod k) i * data x ! ((t div k) * m + i)))
               [0..<rows * k]\<rparr>)"

section \<open>The model: VoltorbFlipCNN\<close>

definition N_CLASSES :: nat where
  "N_CLASSES = 13"

definition N_FEATURES :: nat where
  "N_FEATURES = 45"

record VoltorbFlipCNN =
  conv1 :: conv2d
  conv2 :: conv2d
  conv3 :: conv2d
  flattened_size :: nat
  fc1 :: linear
  fc2 :: linear

text \<open>
  The parameters of the five layers: what the framework draws at random when the
  layers are built, and what training or \<open>load_weights\<close> puts in their place.
\<close>

record state_dict =
  conv1_weight :: "nat \<Rightarrow> nat \<Rightarrow> nat \<Rightarrow> nat \<Rightarrow> real"
  conv1_bias :: "nat \<Rightarrow> real"
  conv2_weight :: "nat \<Rightarrow> nat \<Rightarrow> nat \<Rightarrow> nat \<Rightarrow> real"
  conv2_bias :: "nat \<Rightarrow> real"
  conv3_weight :: "nat \<Rightarrow> nat \<Rightarrow> nat \<Rightarrow> nat \<Rightarrow> real"
  conv3_bias :: "nat \<Rightarrow> real"
  fc1_weight :: "nat \<Rightarrow> nat \<Rightarrow> real"
  fc1_bias :: "nat \<Rightarrow> real"
  fc2_weight :: "nat \<Rightarrow> nat \<Rightarrow> real"
  fc2_bias :: "nat \<Rightarrow> real"

definition Conv2d ::
  "nat \<Rightarrow> nat \<Rightarrow> nat \<Rightarrow> nat \<Rightarrow> nat \<Rightarrow> (nat \<Rightarrow> nat \<Rightarrow> nat \<Rightarrow> nat \<Rightarrow> real) \<Rightarrow> (nat \<Rightarrow> real) \<Rightarrow> conv2d" where
  "Conv2d cin cout k s p w b =
     \<lparr>in_channels = cin, out_channels = cout, kernel_size = k, stride = s, padding = p,
      conv_weight = w, conv_bias = b\<rparr>"

definition Linear :: "nat \<Rightarrow> nat \<Rightarrow> (nat \<Rightarrow> nat \<Rightarrow> real) \<Rightarrow> (nat \<Rightarrow> real) \<Rightarrow> linear" where
  "Linear m k w b = \<lparr>in_features = m, out_features = k, fc_weight = w, fc_bias = b\<rparr>"

text \<open>\<open>t.size(i)\<close>\<close>

definition size_at :: "'a tensor \<Rightarrow> nat \<Rightarrow> py_error + nat" where
  "size_at t i = (if i < length (shape t) then Inr (shape t ! i) else Inl IndexError)"

text \<open>\<open>_get_flattened_size\<close>: a dummy batch of one 32 by 32 image through the convolutions.\<close>

definition get_flattened_size :: "conv2d \<Rightarrow> conv2d \<Rightarrow> conv2d \<Rightarrow> py_error + nat" where
  "get_flattened_size c1 c2 c3 =
     and_then (Conv2d_forward c1 (zeros [1, 3, 32, 32])) (\<lambda>x.
     and_then (max_pool2d (relu x) 2) (\<lambda>x.
     and_then (Conv2d_forward c2 x) (\<lambda>x.
     and_then (max_pool2d (relu x) 2) (\<lambda>x.
     and_then (Conv2d_forward c3 x) (\<lambda>x.
     and_then (view (relu x) [1, - 1]) (\<lambda>x.
     size_at x 1))))))"

text \<open>\<open>__init__\<close>\<close>

definition VoltorbFlipCNN_init :: "state_dict \<Rightarrow> py_error + VoltorbFlipCNN" where
  "VoltorbFlipCNN_init sd =
     (let c1 = Conv2d 3 32 3 1 1 (conv1_weight sd) (conv1_bias sd);
          c2 = Conv2d 32 64 3 1 1 (conv2_weight sd) (conv2_bias sd);
          c3 = Conv2d 64 128 3 1 1 (conv3_weight sd) (conv3_bias sd)
      in and_then (get_flattened_size c1 c2 c3) (\<lambda>fs.
         Inr \<lparr>conv1 = c1, conv2 = c2, conv3 = c3, flattened_size = fs,
              fc1 = Linear fs 256 (fc1_weight sd) (fc1_bias sd),
              fc2 = Linear 256 585 (fc2_weight sd) (fc2_bias sd)\<rparr>))"

text \<open>
  \<open>forward\<close>, in three steps: the convolutions with their activations and
  poolings, the flattening \<open>x.view(x.size(0), -1)\<close>, and the two fully connected
  layers with the sigmoid.
\<close>

definition forward_features :: "VoltorbFlipCNN \<Rightarrow> real tensor \<Rightarrow> py_error + real tensor" where
  "forward_features m x =
     and_then (Conv2d_forward (conv1 m) x) (\<lambda>x.
     and_then (max_pool2d (relu x) 2) (\<lambda>x.
     and_then (Conv2d_forward (conv2 m) x) (\<lambda>x.
     and_then (max_pool2d (relu x) 2) (\<lambda>x.
     and_then (Conv2d_forward (conv3 m) x) (\<lambda>x.
     Inr (relu x))))))"

definition forward_flatten :: "VoltorbFlipCNN \<Rightarrow> real tensor \<Rightarrow> py_error + real tensor" where
  "forward_flatten m x =
     and_then (forward_features m x) (\<lambda>x.
     and_then (size_at x 0) (\<lambda>b. view x [int b, - 1]))"

definition forward :: "VoltorbFlipCNN \<Rightarrow> real tensor \<Rightarrow> py_error + real tensor" where
  "forward m x =
     and_then (forward_flatten m x) (\<lambda>x.
     and_then (Linear_forward (fc1 m) x) (\<lambda>x.
     and_then (Linear_forward (fc2 m) (relu x)) (\<lambda>x.
     Inr (sigmoid x))))"


subsection \<open>Arg-max decoding and \<open>predict\<close>\<close>

text \<open>
  The index of the first greatest entry of a list: \<open>best\<close> is the greatest entry so
  far, \<open>bi\<close> its index, \<open>i\<close> the index of the next entry.
\<close>

fun argmax_from :: "'a::linorder \<Rightarrow> nat \<Rightarrow> nat \<Rightarrow> 'a list \<Rightarrow> nat" where
  "argmax_from best bi i [] = bi"
| "argmax_from best bi i (v # vs) =
     (if best < v then argmax_from v i (Suc i) vs else argmax_from best bi (Suc i) vs)"

definition argmax :: "'a::linorder list \<Rightarrow> nat" where
  "argmax vs = (case vs of [] \<Rightarrow> 0 | v # rest \<Rightarrow> argmax_from v 0 1 rest)"

text \<open>
  \<open>torch.max(t, 1)\<close>: the greatest entry along dimension 1 and its index, for every
  position of the other dimensions.  A tensor of fewer than two dimensions has no
  dimension 1, and a dimension 1 of size 0 cannot be reduced.
\<close>

definition torch_max1 :: "'a::linorder tensor \<Rightarrow> py_error + ('a tensor \<times> nat tensor)" where
  "torch_max1 t =
     (case shape t of
        d0 # d1 # rest \<Rightarrow>
          if d1 = 0 then Inl IndexError
          else
            let inner = numel rest;
                groups = map (\<lambda>u. map (\<lambda>j.
                    data t ! (((u div inner) * d1 + j) * inner + u mod inner)) [0..<d1])
                  [0..<d0 * inner]
            in Inr (\<lparr>shape = d0 # rest, data = map (\<lambda>g. Max (set g)) groups\<rparr>,
                    \<lparr>shape = d0 # rest, data = map argmax groups\<rparr>)
      | _ \<Rightarrow> Inl IndexError)"

text \<open>
  The decoding of \<open>predict\<close> and of \<open>Trainer.evaluate\<close>:
  \<open>_, decoded = torch.max(t.view(-1, VoltorbFlipCNN.N_CLASSES), 1)\<close>.
\<close>

definition decode :: "'a::linorder tensor \<Rightarrow> py_error + nat tensor" where
  "decode t =
     and_then (view t [- 1, int N_CLASSES]) (\<lambda>groups.
     and_then (torch_max1 groups) (\<lambda>(values, indices). Inr indices))"

text \<open>
  What the script takes from the imaging libraries: \<open>Image.open\<close>,
  \<open>Image.convert\<close>, and the class constant \<open>TRANSFORM\<close> (a resize to 32 by 32
  followed by the conversion to a tensor).  \<open>'img\<close> is the type of images.
\<close>

record 'img imaging =
  Image_open :: "string \<Rightarrow> py_error + 'img"
  convert :: "'img \<Rightarrow> string \<Rightarrow> py_error + 'img"
  TRANSFORM :: "'img \<Rightarrow> py_error + real tensor"

text \<open>\<open>predict\<close>.  \<open>self.eval()\<close> and \<open>torch.no_grad()\<close> change no value of this network.\<close>

definition predict :: "'img imaging \<Rightarrow> VoltorbFlipCNN \<Rightarrow> 'img \<Rightarrow> py_error + nat tensor" where
  "predict lib self input_image =
     and_then (convert lib input_image ''RGB'') (\<lambda>rgb.
     and_then (TRANSFORM lib rgb) (\<lambda>t.
     and_then (unsqueeze t 0) (\<lambda>input_image.
     and_then (forward self input_image) (\<lambda>output.
     decode output))))"

section \<open>The dataset: VoltorbFlipScreenshotDataset\<close>

text \<open>
  The label table is a table of integers, one row for each screenshot.  The
  transform is optional (\<open>transform=None\<close>); \<open>'item\<close> is the type of what it returns.
\<close>

record ('img, 'item) VoltorbFlipScreenshotDataset =
  image_folder :: string
  visible_states :: "int list list"
  transform :: "('img \<Rightarrow> py_error + 'item) option"

datatype ('img, 'item) sample = Untransformed 'img | Transformed 'item

definition dataset_len :: "('img, 'item) VoltorbFlipScreenshotDataset \<Rightarrow> nat" where
  "dataset_len self = length (visible_states self)"

text \<open>The decimal digits of an integer, as \<open>f"{idx}"\<close> writes them.\<close>

fun str_nat :: "nat \<Rightarrow> string" where
  "str_nat n =
     (if n < 10 then [''0123456789'' ! n]
      else str_nat (n div 10) @ [''0123456789'' ! (n mod 10)])"

declare str_nat.simps [simp del]

definition str_int :: "int \<Rightarrow> string" where
  "str_int i = (if i < 0 then ''-'' @ str_nat (nat (- i)) else str_nat (nat i))"

text \<open>\<open>os.path.join(a, b)\<close> on a POSIX system\<close>

definition os_path_join :: "string \<Rightarrow> string \<Rightarrow> string" where
  "os_path_join a b =
     (if b \<noteq> [] \<and> hd b = CHR ''/'' then b
      else if a = [] \<or> last a = CHR ''/'' then a @ b
      else a @ ''/'' @ b)"

text \<open>\<open>frame.iloc[idx]\<close>: a negative position counts from the end.\<close>

definition iloc :: "'a list \<Rightarrow> int \<Rightarrow> py_error + 'a" where
  "iloc rows idx =
     (let n = int (length rows) in
      if idx < - n \<or> n \<le> idx then Inl IndexError
      else Inr (rows ! nat (if idx < 0 then idx + n else idx)))"

text \<open>
  \<open>torch.tensor(row.values[1:])\<close>.  The row of a table that has no column has no
  integer type, and is refused.
\<close>

definition labels_tensor :: "int list \<Rightarrow> py_error + int tensor" where
  "labels_tensor row =
     (if row = [] then Inl TypeError
      else Inr \<lparr>shape = [length (drop 1 row)], data = drop 1 row\<rparr>)"

text \<open>
  \<open>F.one_hot(t, num_classes)\<close>: a class below 0, or not below \<open>num_classes\<close>, is
  refused.
\<close>

definition one_hot :: "int tensor \<Rightarrow> nat \<Rightarrow> py_error + int tensor" where
  "one_hot t num_classes =
     (if \<exists>v \<in> set (data t). v < 0 then Inl RuntimeError
      else if \<exists>v \<in> set (data t). int num_classes \<le> v then Inl RuntimeError
      else Inr \<lparr>shape = shape t @ [num_classes],
                data = map (\<lambda>u. if int (u mod num_classes) = data t ! (u div num_classes)
                                 then 1 else 0)
                         [0..<numel (shape t) * num_classes]\<rparr>)"

text \<open>\<open>__getitem__\<close>\<close>

definition getitem ::
  "'img imaging \<Rightarrow> ('img, 'item) VoltorbFlipScreenshotDataset \<Rightarrow> int \<Rightarrow>
     py_error + (('img, 'item) sample \<times> int tensor)" where
  "getitem lib self idx =
     (let img_path = os_path_join (image_folder self) (str_int idx @ ''.png'') in
      and_then (Image_open lib img_path) (\<lambda>opened.
      and_then (convert lib opened ''RGB'') (\<lambda>image.
      and_then (iloc (visible_states self) idx) (\<lambda>row.
      and_then (labels_tensor row) (\<lambda>labels.
      and_then (one_hot labels N_CLASSES) (\<lambda>encoded.
      let encoded_labels = flatten encoded in
      case transform self of
        None \<Rightarrow> Inr (Untransformed image, encoded_labels)
      | Some f \<Rightarrow>
          and_then (f image) (\<lambda>image. Inr (Transformed image, encoded_labels))))))))"

text \<open>
  The label row the specification describes: an id, then 45 class indices, each
  in [0, 13).
\<close>

definition well_formed_row :: "int list \<Rightarrow> bool" where
  "well_formed_row row \<longleftrightarrow>
     length row = Suc N_FEATURES \<and> list_all (\<lambda>v. 0 \<le> v \<and> v < int N_CLASSES) (drop 1 row)"

section \<open>The trainer: evaluate\<close>

text \<open>
  \<open>(decoded_output == decoded_labels).sum().item()\<close> for two 1-D tensors, as the
  decoded tensors are: equal lengths are compared place by place, a tensor of one
  entry is compared with every entry of the other, and other lengths do not
  broadcast.
\<close>

definition eq_sum :: "nat tensor \<Rightarrow> nat tensor \<Rightarrow> py_error + nat" where
  "eq_sum a b =
     (case (shape a, shape b) of
        ([n], [m]) \<Rightarrow>
          if n = m then Inr (length (filter (\<lambda>(u, v). u = v) (zip (data a) (data b))))
          else if n = 1 then Inr (length (filter (\<lambda>v. data a ! 0 = v) (data b)))
          else if m = 1 then Inr (length (filter (\<lambda>u. u = data b ! 0) (data a)))
          else Inl RuntimeError
      | _ \<Rightarrow> Inl RuntimeError)"

text \<open>
  The loop of \<open>evaluate\<close> over the batches of the test loader, with the counters
  \<open>correct\<close> and \<open>total\<close> (here \<open>total'\<close>).  The model is the argument the trainer was built with.
\<close>

fun evaluate_loop ::
  "('x \<Rightarrow> py_error + real tensor) \<Rightarrow> ('x \<times> int tensor) list \<Rightarrow> nat \<Rightarrow> nat \<Rightarrow>
     py_error + (nat \<times> nat)" where
  "evaluate_loop model [] correct total' = Inr (correct, total')"
| "evaluate_loop model ((screenshots, labels) # rest) correct total' =
     and_then (model screenshots) (\<lambda>output.
     and_then (decode output) (\<lambda>decoded_output.
     and_then (decode labels) (\<lambda>decoded_labels.
     and_then (eq_sum decoded_output decoded_labels) (\<lambda>equal.
     evaluate_loop model rest (correct + equal) (total' + numel (shape decoded_labels))))))"

text \<open>\<open>evaluate\<close>: the accuracy \<open>correct / total * 100\<close>; the printing is left out.\<close>

definition evaluate ::
  "('x \<Rightarrow> py_error + real tensor) \<Rightarrow> ('x \<times> int tensor) list \<Rightarrow> py_error + real" where
  "evaluate model test_loader =
     and_then (evaluate_loop model test_loader 0 0) (\<lambda>(correct, total').
     if total' = 0 then Inl ZeroDivisionError
     else Inr (real correct / real total' * 100))"

section \<open>The entry point: main\<close>

subsection \<open>The split\<close>

text \<open>
  \<open>int(0.8 * len(screenshot_dataset))\<close>, in exact arithmetic, and the rest.
\<close>

definition train_size :: "nat \<Rightarrow> nat" where
  "train_size n = nat \<lfloor>0.8 * real n\<rfloor>"

definition test_size :: "nat \<Rightarrow> nat" where
  "test_size n = n - train_size n"

text \<open>\<open>itertools.accumulate\<close>: the running sums.\<close>

fun accumulate :: "nat \<Rightarrow> nat list \<Rightarrow> nat list" where
  "accumulate acc [] = []"
| "accumulate acc (l # ls) = (acc + l) # accumulate (acc + l) ls"

text \<open>
  \<open>random_split(dataset, lengths)\<close> for a dataset of \<open>n\<close> items; \<open>perm\<close> is what
  \<open>randperm\<close> returns.  Lengths that sum to 1 are read as fractions of \<open>n\<close>
  (whole fractions leave no remainder to hand out); then the lengths must sum
  to \<open>n\<close>, and the subsets are consecutive slices of the permutation.
\<close>

definition random_split :: "nat \<Rightarrow> nat list \<Rightarrow> nat list \<Rightarrow> py_error + nat list list" where
  "random_split n lengths perm =
     (let lengths = (if sum_list lengths = 1 then map (\<lambda>frac. n * frac) lengths else lengths) in
      if sum_list lengths \<noteq> n then Inl ValueError
      else Inr (map (\<lambda>(offset, l). take l (drop (offset - l) perm))
                  (zip (accumulate 0 lengths) lengths)))"

text \<open>The split of \<open>main\<close>.\<close>

definition main_split :: "nat \<Rightarrow> nat list \<Rightarrow> py_error + nat list list" where
  "main_split n perm = random_split n [train_size n, test_size n] perm"

subsection \<open>The calls of the trainer\<close>

text \<open>
  \<open>main\<close> builds the dataset, the split, the loaders, the model, the optimizer, the
  loss and the trainer, and then calls four methods of the trainer.  \<open>'w\<close> is the
  state the script works on (files, parameters, console); the construction and the
  bodies of the four methods are arguments.  A call is logged when it is made, and
  an exception ends the run.
\<close>

datatype call = Trainer_train | Trainer_evaluate | Trainer_save_model | Trainer_print_weights

record 'w trainer_methods =
  construct :: "'w \<Rightarrow> py_error + 'w"
  train_body :: "'w \<Rightarrow> py_error + 'w"
  evaluate_body :: "'w \<Rightarrow> py_error + 'w"
  save_model_body :: "'w \<Rightarrow> py_error + 'w"
  print_weights_body :: "'w \<Rightarrow> py_error + 'w"

fun run_calls :: "(call \<times> ('w \<Rightarrow> py_error + 'w)) list \<Rightarrow> 'w \<Rightarrow> call list \<times> (py_error + 'w)" where
  "run_calls [] w = ([], Inr w)"
| "run_calls ((c, body) # rest) w =
     (case body w of
        Inl e \<Rightarrow> ([c], Inl e)
      | Inr w' \<Rightarrow> (case run_calls rest w' of (calls, r) \<Rightarrow> (c # calls, r)))"

definition main :: "'w trainer_methods \<Rightarrow> 'w \<Rightarrow> call list \<times> (py_error + 'w)" where
  "main env w =
     (case construct env w of
        Inl e \<Rightarrow> ([], Inl e)
      | Inr w0 \<Rightarrow>
          run_calls [(Trainer_train, train_body env),
                     (Trainer_evaluate, evaluate_body env),
                     (Trainer_save_model, save_model_body env),
                     (Trainer_print_weights, print_weights_body env)] w0)"

section \<open>Auxiliary definitions and concrete inputs\<close>

text \<open>A convolution of the network: a 3 by 3 kernel, stride 1, padding 1.\<close>

definition is_layer :: "conv2d \<Rightarrow> nat \<Rightarrow> nat \<Rightarrow> bool" where
  "is_layer l cin cout \<longleftrightarrow>
     in_channels l = cin \<and> out_channels l = cout \<and> kernel_size l = 3 \<and> stride l = 1 \<and> padding l = 1"

text \<open>A network whose parameters are all 0, for the concrete instances below.\<close>

definition zero_state_dict :: state_dict where
  "zero_state_dict =
     \<lparr>conv1_weight = (\<lambda>co ci di dj. 0), conv1_bias = (\<lambda>co. 0),
      conv2_weight = (\<lambda>co ci di dj. 0), conv2_bias = (\<lambda>co. 0),
      conv3_weight = (\<lambda>co ci di dj. 0), conv3_bias = (\<lambda>co. 0),
      fc1_weight = (\<lambda>k i. 0), fc1_bias = (\<lambda>k. 0),
      fc2_weight = (\<lambda>k i. 0), fc2_bias = (\<lambda>k. 0)\<rparr>"

definition zero_model :: VoltorbFlipCNN where
  "zero_model =
     \<lparr>conv1 = Conv2d 3 32 3 1 1 (\<lambda>co ci di dj. 0) (\<lambda>co. 0),
      conv2 = Conv2d 32 64 3 1 1 (\<lambda>co ci di dj. 0) (\<lambda>co. 0),
      conv3 = Conv2d 64 128 3 1 1 (\<lambda>co ci di dj. 0) (\<lambda>co. 0),
      flattened_size = 8192,
      fc1 = Linear 8192 256 (\<lambda>k i. 0) (\<lambda>k. 0),
      fc2 = Linear 256 585 (\<lambda>k i. 0) (\<lambda>k. 0)\<rparr>"

text \<open>An imaging library with the one file \<open>imgs/0.png\<close>, and a well-formed label row.\<close>

definition example_imaging :: "nat imaging" where
  "example_imaging =
     \<lparr>Image_open = (\<lambda>path. if path = ''imgs/0.png'' then Inr 7 else Inl FileNotFoundError),
      convert = (\<lambda>opened mode. Inr opened),
      TRANSFORM = (\<lambda>rgb. Inr (zeros [3, 32, 32]))\<rparr>"

definition example_row :: "int list" where
  "example_row =
     [0, 0, 1, 2, 3, 4, 5, 6, 7, 8, 9, 10, 11, 12, 12, 11, 10, 9, 8, 7, 6, 5, 4, 3, 2, 1, 0,
      3, 3, 3, 0, 0, 0, 7, 7, 7, 12, 12, 12, 1, 5, 9, 2, 6, 10, 4]"

section \<open>Properties of the tensor operations\<close>

lemma and_then_Inr [simp]: "and_then (Inr v) f = f v"
  by (simp add: and_then_def)

lemma and_then_Inl [simp]: "and_then (Inl e) f = Inl e"
  by (simp add: and_then_def)

lemma wf_relu [simp]: "wf_tensor (relu t) = wf_tensor t"
  by (simp add: wf_tensor_def relu_def)

lemma shape_relu [simp]: "shape (relu t) = shape t"
  by (simp add: relu_def)

lemma shape_sigmoid [simp]: "shape (sigmoid t) = shape t"
  by (simp add: sigmoid_def)

lemma conv2d_batched_shape:
  assumes "shape x = [N, C, H, W]" "C = in_channels l" "0 < stride l"
    "kernel_size l \<le> H + 2 * padding l" "kernel_size l \<le> W + 2 * padding l"
  shows "\<exists>y. Conv2d_forward l x = Inr y \<and> wf_tensor y \<and>
           shape y = [N, out_channels l, (H + 2 * padding l - kernel_size l) div stride l + 1,
                      (W + 2 * padding l - kernel_size l) div stride l + 1]"
  using assms
  by (simp add: Conv2d_forward_def conv2d_batched_def wf_tensor_def numel_def Let_def mult.assoc)

lemma max_pool2d_shape:
  assumes "shape x = [N, C, H, W]" "0 < C" "0 < k" "k \<le> H" "k \<le> W"
  shows "\<exists>y. max_pool2d x k = Inr y \<and> wf_tensor y \<and>
           shape y = [N, C, (H - k) div k + 1, (W - k) div k + 1]"
  using assms
  by (simp add: max_pool2d_def max_pool2d_batched_def wf_tensor_def numel_def Let_def mult.assoc)

lemma Linear_forward_shape:
  assumes "shape x = [b, in_features l]"
  shows "\<exists>y. Linear_forward l x = Inr y \<and> wf_tensor y \<and> shape y = [b, out_features l]"
  using assms
  by (simp add: Linear_forward_def wf_tensor_def numel_def Let_def)


lemma is_layer_Conv2d: "is_layer (Conv2d cin cout 3 1 1 w b) cin cout"
  by (simp add: is_layer_def Conv2d_def)

lemma conv_layer_shape:
  assumes "is_layer l cin cout" "shape x = [N, cin, H, W]" "0 < H" "0 < W"
  shows "\<exists>y. Conv2d_forward l x = Inr y \<and> wf_tensor y \<and> shape y = [N, cout, H, W]"
proof -
  have "\<exists>y. Conv2d_forward l x = Inr y \<and> wf_tensor y \<and>
           shape y = [N, out_channels l, (H + 2 * padding l - kernel_size l) div stride l + 1,
                      (W + 2 * padding l - kernel_size l) div stride l + 1]"
    using assms by (intro conv2d_batched_shape) (auto simp: is_layer_def)
  then show ?thesis using assms by (auto simp: is_layer_def)
qed

lemma conv_stack:
  assumes c1: "is_layer c1 3 32" and c2: "is_layer c2 32 64" and c3: "is_layer c3 64 128"
    and x: "shape x = [N, 3, 32, 32]"
  shows "\<exists>y. wf_tensor y \<and> shape y = [N, 128, 8, 8] \<and>
     (\<forall>k. and_then (Conv2d_forward c1 x) (\<lambda>x.
           and_then (max_pool2d (relu x) 2) (\<lambda>x.
           and_then (Conv2d_forward c2 x) (\<lambda>x.
           and_then (max_pool2d (relu x) 2) (\<lambda>x.
           and_then (Conv2d_forward c3 x) k)))) = (k y :: py_error + 'a))"
proof -
  obtain y1 where y1: "Conv2d_forward c1 x = Inr y1" "shape y1 = [N, 32, 32, 32]"
    using conv_layer_shape [OF c1 x] by auto
  obtain p1 where p1: "max_pool2d (relu y1) 2 = Inr p1" "shape p1 = [N, 32, 16, 16]"
    using max_pool2d_shape [of "relu y1" N 32 32 32 2] y1 by auto
  obtain y2 where y2: "Conv2d_forward c2 p1 = Inr y2" "shape y2 = [N, 64, 16, 16]"
    using conv_layer_shape [OF c2 p1(2)] by auto
  obtain p2 where p2: "max_pool2d (relu y2) 2 = Inr p2" "shape p2 = [N, 64, 8, 8]"
    using max_pool2d_shape [of "relu y2" N 64 16 16 2] y2 by auto
  obtain y3 where y3: "Conv2d_forward c3 p2 = Inr y3" "wf_tensor y3" "shape y3 = [N, 128, 8, 8]"
    using conv_layer_shape [OF c3 p2(2)] by auto
  show ?thesis
    using y1 p1 y2 p2 y3 by (intro exI [of _ y3]) simp
qed

lemma get_flattened_size_value:
  assumes "is_layer c1 3 32" "is_layer c2 32 64" "is_layer c3 64 128"
  shows "get_flattened_size c1 c2 c3 = Inr 8192"
proof -
  obtain y where y: "wf_tensor y" "shape y = [1, 128, 8, 8]"
    and k: "\<And>k. and_then (Conv2d_forward c1 (zeros [1, 3, 32, 32])) (\<lambda>x.
           and_then (max_pool2d (relu x) 2) (\<lambda>x.
           and_then (Conv2d_forward c2 x) (\<lambda>x.
           and_then (max_pool2d (relu x) 2) (\<lambda>x.
           and_then (Conv2d_forward c3 x) k)))) = (k y :: py_error + nat)"
    using conv_stack [OF assms, of "zeros [1, 3, 32, 32]" 1] by (auto simp: zeros_def)
  have "view (relu y) [1, - 1] = Inr ((relu y)\<lparr>shape := [1, 8192]\<rparr>)"
    using y by (simp add: view_def infer_size_def numel_def)
  then show ?thesis
    unfolding get_flattened_size_def k by (simp add: size_at_def)
qed

lemma VoltorbFlipCNN_init_value:
  "VoltorbFlipCNN_init sd =
     Inr \<lparr>conv1 = Conv2d 3 32 3 1 1 (conv1_weight sd) (conv1_bias sd),
          conv2 = Conv2d 32 64 3 1 1 (conv2_weight sd) (conv2_bias sd),
          conv3 = Conv2d 64 128 3 1 1 (conv3_weight sd) (conv3_bias sd),
          flattened_size = 8192,
          fc1 = Linear 8192 256 (fc1_weight sd) (fc1_bias sd),
          fc2 = Linear 256 585 (fc2_weight sd) (fc2_bias sd)\<rparr>"
proof -
  have "get_flattened_size (Conv2d 3 32 3 1 1 (conv1_weight sd) (conv1_bias sd))
          (Conv2d 32 64 3 1 1 (conv2_weight sd) (conv2_bias sd))
          (Conv2d 64 128 3 1 1 (conv3_weight sd) (conv3_bias sd)) = Inr 8192"
    by (intro get_flattened_size_value is_layer_Conv2d)
  then show ?thesis
    by (simp add: VoltorbFlipCNN_init_def Let_def)
qed


lemma init_layers:
  assumes "VoltorbFlipCNN_init sd = Inr m"
  shows "is_layer (conv1 m) 3 32" "is_layer (conv2 m) 32 64" "is_layer (conv3 m) 64 128"
    "flattened_size m = 8192"
    "in_features (fc1 m) = 8192" "out_features (fc1 m) = 256"
    "in_features (fc2 m) = 256" "out_features (fc2 m) = 585"
  using assms unfolding VoltorbFlipCNN_init_value
  by (auto simp: is_layer_def Conv2d_def Linear_def)

lemma forward_features_shape:
  assumes "VoltorbFlipCNN_init sd = Inr m" "shape x = [b, 3, 32, 32]"
  shows "\<exists>y. forward_features m x = Inr y \<and> wf_tensor y \<and> shape y = [b, 128, 8, 8]"
proof -
  obtain y where y: "wf_tensor y" "shape y = [b, 128, 8, 8]"
    and k: "\<And>k. and_then (Conv2d_forward (conv1 m) x) (\<lambda>x.
           and_then (max_pool2d (relu x) 2) (\<lambda>x.
           and_then (Conv2d_forward (conv2 m) x) (\<lambda>x.
           and_then (max_pool2d (relu x) 2) (\<lambda>x.
           and_then (Conv2d_forward (conv3 m) x) k)))) = (k y :: py_error + real tensor)"
    using conv_stack [OF init_layers(1-3) [OF assms(1)] assms(2)] by blast
  show ?thesis
    unfolding forward_features_def k using y by simp
qed

lemma view_batch_rest:
  assumes "shape y = b # rest" "0 < b" "0 < numel rest"
  shows "view y [int b, - 1] = Inr (y\<lparr>shape := [b, numel rest]\<rparr>)"
  using assms by (simp add: view_def infer_size_def numel_def)

lemma view_empty_batch:
  assumes "shape y = 0 # rest"
  shows "view y [0, - 1] = Inl RuntimeError"
  using assms by (simp add: view_def infer_size_def numel_def)

lemma forward_flatten_shape:
  assumes "VoltorbFlipCNN_init sd = Inr m" "shape x = [b, 3, 32, 32]" "0 < b"
  shows "\<exists>y. forward_flatten m x = Inr y \<and> wf_tensor y \<and> shape y = [b, 8192]"
proof -
  obtain y where y: "forward_features m x = Inr y" "wf_tensor y" "shape y = [b, 128, 8, 8]"
    using forward_features_shape [OF assms(1,2)] by blast
  have "view y [int b, - 1] = Inr (y\<lparr>shape := [b, numel [128, 8, 8]]\<rparr>)"
    using y(3) assms(3) by (intro view_batch_rest) (simp_all add: numel_def)
  then show ?thesis
    using y by (simp add: forward_flatten_def size_at_def wf_tensor_def numel_def)
qed

lemma forward_flatten_empty:
  assumes "VoltorbFlipCNN_init sd = Inr m" "shape x = [0, 3, 32, 32]"
  shows "forward_flatten m x = Inl RuntimeError"
proof -
  obtain y where y: "forward_features m x = Inr y" "shape y = [0, 128, 8, 8]"
    using forward_features_shape [OF assms] by blast
  then show ?thesis
    by (simp add: forward_flatten_def size_at_def view_empty_batch)
qed

lemma forward_shape:
  assumes "VoltorbFlipCNN_init sd = Inr m" "shape x = [b, 3, 32, 32]" "0 < b"
  shows "\<exists>y. forward m x = Inr y \<and> wf_tensor y \<and> shape y = [b, 585]"
proof -
  obtain f where f: "forward_flatten m x = Inr f" "shape f = [b, 8192]"
    using forward_flatten_shape [OF assms] by blast
  obtain h where h: "Linear_forward (fc1 m) f = Inr h" "shape h = [b, 256]"
    using Linear_forward_shape [of f b "fc1 m"] f init_layers [OF assms(1)] by auto
  obtain z where z: "Linear_forward (fc2 m) (relu h) = Inr z" "wf_tensor z" "shape z = [b, 585]"
    using Linear_forward_shape [of "relu h" b "fc2 m"] h init_layers [OF assms(1)] by auto
  show ?thesis
    using f h z by (simp add: forward_def wf_tensor_def sigmoid_def)
qed

lemma forward_empty:
  assumes "VoltorbFlipCNN_init sd = Inr m" "shape x = [0, 3, 32, 32]"
  shows "forward m x = Inl RuntimeError"
  by (simp add: forward_def forward_flatten_empty [OF assms])

lemma sigmoid_range: "0 < 1 / (1 + exp (- v :: real))" "1 / (1 + exp (- v :: real)) < 1"
proof -
  have "0 < exp (- v)" by simp
  then show "0 < 1 / (1 + exp (- v))" "1 / (1 + exp (- v)) < 1"
    by (simp_all add: add_pos_pos)
qed

lemma forward_is_sigmoid:
  assumes "forward m x = Inr y"
  shows "\<exists>z. y = sigmoid z"
  using assms
  by (auto simp: forward_def and_then_def split: sum.splits)

lemma forward_range:
  assumes "forward m x = Inr y" "v \<in> set (data y)"
  shows "0 < v \<and> v < 1"
proof -
  obtain z where "y = sigmoid z" using forward_is_sigmoid [OF assms(1)] by blast
  then obtain u where "v = 1 / (1 + exp (- u))"
    using assms(2) by (auto simp: sigmoid_def)
  then show ?thesis using sigmoid_range by simp
qed


lemma argmax_from_bound:
  "argmax_from best bi i vs = bi \<or> (i \<le> argmax_from best bi i vs \<and> argmax_from best bi i vs < i + length vs)"
proof (induction vs arbitrary: best bi i)
  case Nil
  then show ?case by simp
next
  case (Cons v vs)
  show ?case
  proof (cases "best < v")
    case True
    with Cons [of v i "Suc i"] show ?thesis by auto
  next
    case False
    with Cons [of best bi "Suc i"] show ?thesis by auto
  qed
qed

lemma argmax_less: "vs \<noteq> [] \<Longrightarrow> argmax vs < length vs"
proof (cases vs)
  case Nil
  assume "vs \<noteq> []"
  with Nil show ?thesis by simp
next
  case (Cons v rest)
  with argmax_from_bound [of v 0 1 rest] show ?thesis
    by (auto simp: argmax_def)
qed

lemma argmax_from_skip:
  "\<forall>v \<in> set us. \<not> best < v \<Longrightarrow>
     argmax_from best bi i (us @ rest) = argmax_from best bi (i + length us) rest"
  by (induction us arbitrary: i) auto

lemma one_hot_row_split:
  assumes "k < n"
  shows "map (\<lambda>j. if j = k then 1 else 0 :: int) [0..<n] =
           replicate k 0 @ 1 # replicate (n - Suc k) 0"
proof -
  have "[0..<n] = [0..<k] @ k # [Suc k..<n]"
    using assms by (metis le_add2 less_imp_add_positive upt_add_eq_append upt_conv_Cons
        less_eq_nat.simps(1) plus_nat.add_0 le_eq_less_or_eq)
  moreover have "map (\<lambda>j. if j = k then 1 else 0 :: int) [0..<k] = map (\<lambda>j. 0) [0..<k]"
    by (rule map_cong) auto
  moreover have "map (\<lambda>j. if j = k then 1 else 0 :: int) [Suc k..<n] = map (\<lambda>j. 0) [Suc k..<n]"
    by (rule map_cong) auto
  ultimately show ?thesis by (simp add: map_replicate_const)
qed

lemma argmax_one_hot_row:
  assumes "k < n"
  shows "argmax (map (\<lambda>j. if j = k then 1 else 0 :: int) [0..<n]) = k"
proof (cases k)
  case 0
  have "argmax_from (1::int) 0 1 (replicate (n - Suc 0) 0 @ []) = 0"
    by (subst argmax_from_skip) simp_all
  with 0 assms show ?thesis
    by (simp add: one_hot_row_split argmax_def)
next
  case (Suc k')
  have "argmax_from (0::int) 0 1 (replicate k' 0 @ 1 # replicate (n - Suc k) 0) =
          argmax_from (0::int) 0 (1 + k') (1 # replicate (n - Suc k) 0)"
    by (subst argmax_from_skip) simp_all
  also have "\<dots> = argmax_from (1::int) k (Suc k) (replicate (n - Suc k) 0 @ [])"
    using Suc by simp
  also have "\<dots> = k"
    by (subst argmax_from_skip) simp_all
  finally show ?thesis
    using Suc assms by (simp add: one_hot_row_split argmax_def)
qed

lemma infer_groups: "infer_size [- 1, int N_CLASSES] (n * 13) = Inr [n, 13]"
  by (simp add: infer_size_def N_CLASSES_def)

lemma decode_value:
  assumes "numel (shape t) = n * 13"
  shows "decode t =
     Inr \<lparr>shape = [n], data = map (\<lambda>u. argmax (map (\<lambda>j. data t ! (u * 13 + j)) [0..<13])) [0..<n]\<rparr>"
  using assms
  by (simp add: decode_def view_def infer_groups torch_max1_def numel_def Let_def o_def)


lemma one_hot_value:
  assumes "\<forall>v \<in> set ls. 0 \<le> v \<and> v < 13"
  shows "one_hot \<lparr>shape = [length ls], data = ls\<rparr> N_CLASSES =
     Inr \<lparr>shape = [length ls, 13],
          data = map (\<lambda>u. if int (u mod 13) = ls ! (u div 13) then 1 else 0) [0..<length ls * 13]\<rparr>"
  using assms by (auto simp: one_hot_def N_CLASSES_def numel_def)

lemma one_hot_group:
  assumes "\<forall>v \<in> set ls. 0 \<le> v \<and> v < 13" "u < length ls"
  shows "map (\<lambda>j. map (\<lambda>u. if int (u mod 13) = ls ! (u div 13) then 1 else 0 :: int)
                   [0..<length ls * 13] ! (u * 13 + j)) [0..<13] =
         map (\<lambda>j. if j = nat (ls ! u) then 1 else 0) [0..<13]"
proof (rule map_cong [OF refl])
  fix j assume "j \<in> set [0..<13]"
  then have j: "j < 13" by simp
  have "u * 13 + j < length ls * 13"
  proof -
    have "u * 13 + j < Suc u * 13" using j by simp
    also have "\<dots> \<le> length ls * 13" using assms(2) by (simp add: Suc_leI del: mult_Suc)
    finally show ?thesis .
  qed
  moreover have "0 \<le> ls ! u" using assms nth_mem by blast
  ultimately show "map (\<lambda>u. if int (u mod 13) = ls ! (u div 13) then 1 else 0 :: int)
                   [0..<length ls * 13] ! (u * 13 + j) = (if j = nat (ls ! u) then 1 else 0)"
    using j by auto
qed

lemma decode_one_hot:
  assumes "\<forall>v \<in> set ls. 0 \<le> v \<and> v < 13"
  shows "decode (flatten \<lparr>shape = [length ls, 13],
          data = map (\<lambda>u. if int (u mod 13) = ls ! (u div 13) then 1 else 0 :: int)
                   [0..<length ls * 13]\<rparr>) =
         Inr \<lparr>shape = [length ls], data = map nat ls\<rparr>"
proof -
  let ?enc = "flatten \<lparr>shape = [length ls, 13],
          data = map (\<lambda>u. if int (u mod 13) = ls ! (u div 13) then 1 else 0 :: int)
                   [0..<length ls * 13]\<rparr>"
  have "numel (shape ?enc) = length ls * 13"
    by (simp add: flatten_def numel_def)
  then have "decode ?enc = Inr \<lparr>shape = [length ls],
      data = map (\<lambda>u. argmax (map (\<lambda>j. data ?enc ! (u * 13 + j)) [0..<13])) [0..<length ls]\<rparr>"
    by (rule decode_value)
  moreover have "map (\<lambda>u. argmax (map (\<lambda>j. data ?enc ! (u * 13 + j)) [0..<13])) [0..<length ls] =
      map (\<lambda>u. nat (ls ! u)) [0..<length ls]"
  proof (rule map_cong [OF refl])
    fix u assume "u \<in> set [0..<length ls]"
    then have u: "u < length ls" by simp
    then have "0 \<le> ls ! u \<and> ls ! u < 13" using assms nth_mem by blast
    then have "nat (ls ! u) < 13" by linarith
    then have k: "argmax (map (\<lambda>j. if j = nat (ls ! u) then 1 else 0 :: int) [0..<13]) = nat (ls ! u)"
      by (rule argmax_one_hot_row)
    have "data ?enc = map (\<lambda>u. if int (u mod 13) = ls ! (u div 13) then 1 else 0 :: int)
                   [0..<length ls * 13]"
      by (simp add: flatten_def)
    then have "argmax (map (\<lambda>j. data ?enc ! (u * 13 + j)) [0..<13]) =
        argmax (map (\<lambda>j. map (\<lambda>u. if int (u mod 13) = ls ! (u div 13) then 1 else 0 :: int)
                   [0..<length ls * 13] ! (u * 13 + j)) [0..<13])"
      by (simp only:)
    also have "\<dots> = argmax (map (\<lambda>j. if j = nat (ls ! u) then 1 else 0 :: int) [0..<13])"
      by (simp only: one_hot_group [OF assms u])
    finally show "argmax (map (\<lambda>j. data ?enc ! (u * 13 + j)) [0..<13]) = nat (ls ! u)"
      using k by simp
  qed
  moreover have "map (\<lambda>u. nat (ls ! u)) [0..<length ls] = map nat ls"
    by (rule nth_equalityI) simp_all
  ultimately show ?thesis by simp
qed

lemma roundtrip_general:
  assumes "\<forall>v \<in> set ls. 0 \<le> v \<and> v < 13"
  shows "\<exists>enc d. and_then (labels_tensor (c # ls)) (\<lambda>t. one_hot t N_CLASSES) = Inr enc \<and>
           decode (flatten enc) = Inr d \<and> shape d = [length ls] \<and> map int (data d) = ls"
proof -
  have "map int (map nat ls) = ls"
    using assms by (simp add: map_idI)
  then show ?thesis
    using decode_one_hot [OF assms] one_hot_value [OF assms]
    by (simp add: labels_tensor_def)
qed


lemma predict_value:
  assumes "VoltorbFlipCNN_init sd = Inr m" "convert lib img ''RGB'' = Inr rgb"
    "TRANSFORM lib rgb = Inr t" "shape t = [3, 32, 32]"
  shows "\<exists>out. forward m (t\<lparr>shape := [1, 3, 32, 32]\<rparr>) = Inr out \<and> shape out = [1, 585] \<and>
           predict lib m img =
             Inr \<lparr>shape = [45],
                  data = map (\<lambda>g. argmax (map (\<lambda>j. data out ! (g * 13 + j)) [0..<13])) [0..<45]\<rparr>"
proof -
  obtain out where out: "forward m (t\<lparr>shape := [1, 3, 32, 32]\<rparr>) = Inr out" "shape out = [1, 585]"
    using forward_shape [OF assms(1), of "t\<lparr>shape := [1, 3, 32, 32]\<rparr>" 1] by auto
  have "numel (shape out) = 45 * 13"
    using out(2) by (simp add: numel_def)
  then have "decode out = Inr \<lparr>shape = [45],
      data = map (\<lambda>g. argmax (map (\<lambda>j. data out ! (g * 13 + j)) [0..<13])) [0..<45]\<rparr>"
    by (rule decode_value)
  then show ?thesis
    using out assms by (simp add: predict_def unsqueeze_def)
qed

lemma argmax_group_less: "argmax (map f [0..<13]) < 13"
  using argmax_less [of "map f [0..<13]"] by simp

lemma decode_1d:
  assumes "decode t = Inr d"
  shows "\<exists>n. shape d = [n] \<and> length (data d) = n"
proof -
  obtain s where s: "infer_size [- 1, int N_CLASSES] (numel (shape t)) = Inr s"
    and m: "and_then (torch_max1 (t\<lparr>shape := s\<rparr>)) (\<lambda>(values, indices). Inr indices) = Inr d"
    using assms by (auto simp: decode_def view_def and_then_def split: sum.splits)
  have "\<exists>n. s = [n, 13]"
    using s by (auto simp: infer_size_def N_CLASSES_def split: if_splits)
  then obtain n where "s = [n, 13]" by blast
  with m show ?thesis
    by (auto simp: torch_max1_def numel_def Let_def)
qed

lemma eq_sum_same:
  assumes "shape d = [n]" "length (data d) = n"
  shows "eq_sum d d = Inr n"
proof -
  have "filter (\<lambda>(u, v). u = v) (zip (data d) (data d)) = zip (data d) (data d)"
    by (rule filter_True) (auto simp: set_zip)
  then show ?thesis using assms by (simp add: eq_sum_def)
qed

lemma evaluate_loop_all_correct:
  assumes "\<forall>(x, l) \<in> set loader. \<exists>out d. model x = Inr out \<and> decode out = Inr d \<and> decode l = Inr d"
  shows "\<exists>s. evaluate_loop model loader c t = Inr (c + s, t + s) \<and>
           (\<forall>(x, l) \<in> set loader. \<forall>d. decode l = Inr d \<longrightarrow> numel (shape d) \<le> s)"
  using assms
proof (induction loader arbitrary: c t)
  case Nil
  then show ?case by simp
next
  case (Cons batch rest)
  obtain x l where batch: "batch = (x, l)" by (cases batch)
  from Cons.prems batch obtain out d where
    d: "model x = Inr out" "decode out = Inr d" "decode l = Inr d"
    by auto
  obtain n where n: "shape d = [n]" "length (data d) = n"
    using decode_1d [OF d(3)] by blast
  have eq: "eq_sum d d = Inr n" using n by (rule eq_sum_same)
  have numel: "numel (shape d) = n" using n by (simp add: numel_def)
  from Cons.prems have "\<forall>(x, l) \<in> set rest. \<exists>out d. model x = Inr out \<and> decode out = Inr d \<and> decode l = Inr d"
    by simp
  from Cons.IH [OF this, of "c + n" "t + n"] obtain s where
    s: "evaluate_loop model rest (c + n) (t + n) = Inr (c + n + s, t + n + s)"
       "\<forall>(x, l) \<in> set rest. \<forall>d. decode l = Inr d \<longrightarrow> numel (shape d) \<le> s"
    by blast
  have "evaluate_loop model (batch # rest) c t = Inr (c + (n + s), t + (n + s))"
    using batch d eq numel s(1) by (simp add: add.assoc)
  moreover have "\<forall>(x, l) \<in> set (batch # rest). \<forall>d. decode l = Inr d \<longrightarrow> numel (shape d) \<le> n + s"
    using batch d(3) numel s(2) by fastforce
  ultimately show ?case by blast
qed

lemma evaluate_all_correct:
  assumes "\<forall>(x, l) \<in> set loader. \<exists>out d. model x = Inr out \<and> decode out = Inr d \<and> decode l = Inr d"
    and "\<exists>(x, l) \<in> set loader. \<exists>d. decode l = Inr d \<and> 0 < numel (shape d)"
  shows "evaluate model loader = Inr 100"
proof -
  obtain s where s: "evaluate_loop model loader 0 0 = Inr (0 + s, 0 + s)"
    "\<forall>(x, l) \<in> set loader. \<forall>d. decode l = Inr d \<longrightarrow> numel (shape d) \<le> s"
    using evaluate_loop_all_correct [OF assms(1), of 0 0] by blast
  have "0 < s" using assms(2) s(2) by fastforce
  then show ?thesis using s(1) by (simp add: evaluate_def)
qed


lemma train_size_le: "train_size n \<le> n"
proof -
  have "\<lfloor>0.8 * real n\<rfloor> \<le> int n"
    by (rule floor_le_iff [THEN iffD2]) simp
  then show ?thesis by (simp add: train_size_def)
qed

lemma train_size_div: "train_size n = (4 * n) div 5"
proof -
  have "0.8 * real n = real (4 * n) / real 5" by simp
  then have "\<lfloor>0.8 * real n\<rfloor> = int ((4 * n) div 5)"
    by (simp only: floor_divide_of_nat_eq)
  then show ?thesis by (simp add: train_size_def)
qed

lemma random_split_two:
  assumes "a + b = n" "length perm = n"
  shows "random_split n [a, b] perm = Inr [take a perm, drop a perm]"
proof (cases "a + b = 1")
  case True
  then have n: "n = 1" using assms by simp
  have "Suc 0 - b = a" using True by simp
  then show ?thesis using assms True unfolding n by (simp add: random_split_def Let_def)
next
  case False
  have "n - b = a" using assms by simp
  then show ?thesis using False assms by (simp add: random_split_def)
qed

lemma main_split_value:
  assumes "distinct perm" "set perm = {0..<n}"
  shows "main_split n perm = Inr [take (train_size n) perm, drop (train_size n) perm]"
    and "length perm = n"
proof -
  show len: "length perm = n"
    using assms distinct_card [of perm] by simp
  have "train_size n + test_size n = n"
    using train_size_le [of n] by (simp add: test_size_def)
  then show "main_split n perm = Inr [take (train_size n) perm, drop (train_size n) perm]"
    unfolding main_split_def using len by (rule random_split_two)
qed

lemma run_calls_prefix:
  "\<exists>k. fst (run_calls steps w) = take k (map fst steps)"
proof (induction steps arbitrary: w)
  case Nil
  then show ?case by simp
next
  case (Cons step steps)
  obtain c body where step: "step = (c, body)" by (cases step)
  show ?case
  proof (cases "body w")
    case (Inl e)
    then have "fst (run_calls (step # steps) w) = take 1 (map fst (step # steps))"
      using step by simp
    then show ?thesis by blast
  next
    case (Inr w')
    obtain calls r where rest: "run_calls steps w' = (calls, r)"
      by (cases "run_calls steps w'")
    obtain k where "fst (run_calls steps w') = take k (map fst steps)"
      using Cons by blast
    then have "fst (run_calls (step # steps) w) = take (Suc k) (map fst (step # steps))"
      using step Inr rest by simp
    then show ?thesis by blast
  qed
qed

lemma main_calls_prefix:
  "\<exists>k. fst (main env w) =
     take k [Trainer_train, Trainer_evaluate, Trainer_save_model, Trainer_print_weights]"
proof (cases "construct env w")
  case (Inl e)
  then have "fst (main env w) =
      take 0 [Trainer_train, Trainer_evaluate, Trainer_save_model, Trainer_print_weights]"
    by (simp add: main_def)
  then show ?thesis by blast
next
  case (Inr w0)
  then show ?thesis
    using run_calls_prefix [of "[(Trainer_train, train_body env),
                     (Trainer_evaluate, evaluate_body env),
                     (Trainer_save_model, save_model_body env),
                     (Trainer_print_weights, print_weights_body env)]" w0]
    by (simp add: main_def)
qed

lemma main_calls_all:
  assumes "construct env w = Inr w0" "train_body env w0 = Inr w1"
    "evaluate_body env w1 = Inr w2" "save_model_body env w2 = Inr w3"
  shows "main env w =
     ([Trainer_train, Trainer_evaluate, Trainer_save_model, Trainer_print_weights],
      print_weights_body env w3)"
  using assms by (simp add: main_def split: sum.splits)

section \<open>Properties of the dataset\<close>

lemma one_hot_concat:
  assumes "0 < k"
  shows "map (\<lambda>u. if int (u mod k) = ls ! (u div k) then 1 else 0 :: int) [0..<length ls * k] =
         concat (map (\<lambda>v. map (\<lambda>j. if int j = v then 1 else 0) [0..<k]) ls)"
proof (induction ls rule: rev_induct)
  case Nil
  then show ?case by simp
next
  case (snoc v ls)
  let ?n = "length ls"
  have "[0..<?n * k + k] = [0..<?n * k] @ [?n * k..<?n * k + k]"
    by (rule upt_add_eq_append) simp
  moreover have "map (\<lambda>j. j + ?n * k) [0..<k] = [?n * k..<k + ?n * k]"
    by (rule map_add_upt)
  ultimately have split: "[0..<length (ls @ [v]) * k] = [0..<?n * k] @ map (\<lambda>j. j + ?n * k) [0..<k]"
    by (simp add: add.commute)
  have a: "map (\<lambda>u. if int (u mod k) = (ls @ [v]) ! (u div k) then 1 else 0 :: int) [0..<?n * k] =
           map (\<lambda>u. if int (u mod k) = ls ! (u div k) then 1 else 0) [0..<?n * k]"
  proof (rule map_cong [OF refl])
    fix u assume "u \<in> set [0..<?n * k]"
    then have "u div k < ?n"
      using assms by (simp add: less_mult_imp_div_less)
    then show "(if int (u mod k) = (ls @ [v]) ! (u div k) then 1 else 0 :: int) =
               (if int (u mod k) = ls ! (u div k) then 1 else 0)"
      by (simp add: nth_append)
  qed
  have b: "map (\<lambda>u. if int (u mod k) = (ls @ [v]) ! (u div k) then 1 else 0 :: int)
             (map (\<lambda>j. j + ?n * k) [0..<k]) =
           map (\<lambda>j. if int j = v then 1 else 0) [0..<k]"
    by (rule nth_equalityI) (simp_all add: nth_append)
  show ?case
    unfolding split map_append a b using snoc.IH by simp
qed

lemma str_nat_head: "str_nat n \<noteq> [] \<and> hd (str_nat n) \<noteq> CHR ''/''"
proof (induction n rule: str_nat.induct)
  case (1 n)
  show ?case
  proof (cases "n < 10")
    case True
    then have "n \<in> {0, 1, 2, 3, 4, 5, 6, 7, 8, 9}" by auto
    then show ?thesis
      by (subst str_nat.simps, subst (2) str_nat.simps) auto
  next
    case False
    then show ?thesis
      using 1 by (subst str_nat.simps, subst (2) str_nat.simps) simp
  qed
qed

lemma img_path_value:
  "os_path_join folder (str_int idx @ ''.png'') =
     folder @ (if folder = [] \<or> last folder = CHR ''/'' then [] else ''/'') @
     str_int idx @ ''.png''"
  using str_nat_head [of "nat idx"] str_nat_head [of "nat (- idx)"]
  by (auto simp: os_path_join_def str_int_def)

lemma iloc_valid:
  assumes "0 \<le> idx" "idx < int (length rows)"
  shows "iloc rows idx = Inr (rows ! nat idx)"
  using assms by (simp add: iloc_def Let_def)

lemma encode_row:
  assumes "row \<noteq> []" "\<forall>v \<in> set (drop 1 row). 0 \<le> v \<and> v < 13"
  shows "labels_tensor row = Inr \<lparr>shape = [length (drop 1 row)], data = drop 1 row\<rparr>"
    and "one_hot \<lparr>shape = [length (drop 1 row)], data = drop 1 row\<rparr> N_CLASSES =
     Inr \<lparr>shape = [length (drop 1 row), 13],
          data = map (\<lambda>u. if int (u mod 13) = drop 1 row ! (u div 13) then 1 else 0)
                   [0..<length (drop 1 row) * 13]\<rparr>"
    and "flatten \<lparr>shape = [length (drop 1 row), 13],
          data = map (\<lambda>u. if int (u mod 13) = drop 1 row ! (u div 13) then 1 else 0 :: int)
                   [0..<length (drop 1 row) * 13]\<rparr> =
         \<lparr>shape = [length (drop 1 row) * 13],
          data = concat (map (\<lambda>v. map (\<lambda>j. if int j = v then 1 else 0) [0..<13]) (drop 1 row))\<rparr>"
proof -
  show "labels_tensor row = Inr \<lparr>shape = [length (drop 1 row)], data = drop 1 row\<rparr>"
    using assms(1) by (simp add: labels_tensor_def)
  show "one_hot \<lparr>shape = [length (drop 1 row)], data = drop 1 row\<rparr> N_CLASSES =
     Inr \<lparr>shape = [length (drop 1 row), 13],
          data = map (\<lambda>u. if int (u mod 13) = drop 1 row ! (u div 13) then 1 else 0)
                   [0..<length (drop 1 row) * 13]\<rparr>"
    using assms(2) by (rule one_hot_value)
  show "flatten \<lparr>shape = [length (drop 1 row), 13],
          data = map (\<lambda>u. if int (u mod 13) = drop 1 row ! (u div 13) then 1 else 0 :: int)
                   [0..<length (drop 1 row) * 13]\<rparr> =
         \<lparr>shape = [length (drop 1 row) * 13],
          data = concat (map (\<lambda>v. map (\<lambda>j. if int j = v then 1 else 0) [0..<13]) (drop 1 row))\<rparr>"
    using one_hot_concat [of 13 "drop 1 row"] by (simp add: flatten_def numel_def)
qed

lemma encode_row_bad:
  assumes "\<exists>v \<in> set (drop 1 row). v < 0 \<or> 13 \<le> v"
  shows "and_then (labels_tensor row) (\<lambda>labels. and_then (one_hot labels N_CLASSES) f) =
         Inl RuntimeError"
proof -
  have "row \<noteq> []" using assms by auto
  then show ?thesis
    using assms by (auto simp: labels_tensor_def one_hot_def N_CLASSES_def)
qed

lemma getitem_value:
  assumes "Image_open lib (os_path_join (image_folder self) (str_int idx @ ''.png'')) = Inr opened"
    and "convert lib opened ''RGB'' = Inr rgb"
    and "iloc (visible_states self) idx = Inr row"
    and "row \<noteq> []" and "\<forall>v \<in> set (drop 1 row). 0 \<le> v \<and> v < 13"
  shows "getitem lib self idx =
     (case transform self of
        None \<Rightarrow> Inr (Untransformed rgb,
          \<lparr>shape = [length (drop 1 row) * 13],
           data = concat (map (\<lambda>v. map (\<lambda>j. if int j = v then 1 else 0) [0..<13]) (drop 1 row))\<rparr>)
      | Some f \<Rightarrow> and_then (f rgb) (\<lambda>transformed. Inr (Transformed transformed,
          \<lparr>shape = [length (drop 1 row) * 13],
           data = concat (map (\<lambda>v. map (\<lambda>j. if int j = v then 1 else 0) [0..<13]) (drop 1 row))\<rparr>)))"
  unfolding getitem_def Let_def
  by (simp only: assms(1,2,3) encode_row [OF assms(4,5)] and_then_Inr)

lemma getitem_bad_entry:
  assumes "Image_open lib (os_path_join (image_folder self) (str_int idx @ ''.png'')) = Inr opened"
    and "convert lib opened ''RGB'' = Inr rgb"
    and "iloc (visible_states self) idx = Inr row"
    and "\<exists>v \<in> set (drop 1 row). v < 0 \<or> 13 \<le> v"
  shows "getitem lib self idx = Inl RuntimeError"
  unfolding getitem_def Let_def
  by (simp add: assms(1,2,3) encode_row_bad [OF assms(4)])

lemma getitem_open_fails:
  assumes "Image_open lib (os_path_join (image_folder self) (str_int idx @ ''.png'')) = Inl e"
  shows "getitem lib self idx = Inl e"
  unfolding getitem_def Let_def by (simp add: assms)

lemma length_concat_rows:
  "length (concat (map (\<lambda>v. map (f v) [0..<k]) ls)) = length ls * k"
  by (induction ls) simp_all

lemma zero_model_init: "VoltorbFlipCNN_init zero_state_dict = Inr zero_model"
  by (simp add: VoltorbFlipCNN_init_value zero_state_dict_def zero_model_def)

section \<open>The claims\<close>

text \<open>
  C1 (as stated): for every batch of shape (batch, 3, 32, 32), \<open>forward\<close> returns a
  tensor of shape (batch, 585).  This fails for the empty batch: the flattening
  \<open>x.view(x.size(0), -1)\<close> of a tensor of shape (0, 128, 8, 8) raises.
\<close>

theorem forward_empty_batch_raises:
  "VoltorbFlipCNN_init zero_state_dict = Inr zero_model \<and>
   shape (zeros [0, 3, 32, 32]) = [0, 3, 32, 32] \<and>
   wf_tensor (zeros [0, 3, 32, 32]) \<and>
   forward zero_model (zeros [0, 3, 32, 32]) = Inl RuntimeError"
  using forward_empty [OF zero_model_init, of "zeros [0, 3, 32, 32]"] zero_model_init
  by (simp add: zeros_def wf_tensor_def numel_def)

text \<open>
  C1 (amended): for every batch of shape (batch, 3, 32, 32) with at least one
  image, \<open>forward\<close> returns a tensor of shape (batch, 585), where 585 is 45 cells
  times 13 classes.
\<close>

theorem forward_output_shape:
  assumes "VoltorbFlipCNN_init sd = Inr m" and "shape x = [b, 3, 32, 32]" and "0 < b"
  shows "\<exists>y. forward m x = Inr y \<and> shape y = [b, N_FEATURES * N_CLASSES] \<and>
           N_FEATURES * N_CLASSES = 585 \<and> length (data y) = b * 585"
proof -
  obtain y where "forward m x = Inr y" "wf_tensor y" "shape y = [b, 585]"
    using forward_shape [OF assms] by blast
  then show ?thesis
    by (simp add: wf_tensor_def numel_def N_FEATURES_def N_CLASSES_def)
qed

theorem forward_output_shape_witness:
  "VoltorbFlipCNN_init zero_state_dict = Inr zero_model \<and>
   shape (zeros [1, 3, 32, 32]) = [1, 3, 32, 32] \<and> (0 :: nat) < 1 \<and>
   (\<exists>y. forward zero_model (zeros [1, 3, 32, 32]) = Inr y \<and>
        shape y = [1, N_FEATURES * N_CLASSES] \<and>
        N_FEATURES * N_CLASSES = 585 \<and> length (data y) = 1 * 585)"
proof -
  have s: "shape (zeros [1, 3, 32, 32]) = [1, 3, 32, 32]"
    by (simp add: zeros_def)
  show ?thesis
    using forward_output_shape [OF zero_model_init s] zero_model_init s by simp
qed

text \<open>
  C2: for a label vector of 45 integers, each in [0, 13), the encoding of
  \<open>__getitem__\<close> (one-hot rows of width 13, flattened to width 585) decoded as in
  \<open>Trainer.evaluate\<close> (arg-max of each group of 13) gives back the 45 labels.
\<close>

theorem one_hot_argmax_roundtrip:
  assumes "length ls = 45" and "\<forall>v \<in> set ls. 0 \<le> v \<and> v < 13"
  shows "\<exists>enc d. and_then (labels_tensor (c # ls)) (\<lambda>t. one_hot t N_CLASSES) = Inr enc \<and>
           shape (flatten enc) = [585] \<and>
           decode (flatten enc) = Inr d \<and> shape d = [45] \<and> map int (data d) = ls"
proof -
  obtain enc d where e: "and_then (labels_tensor (c # ls)) (\<lambda>t. one_hot t N_CLASSES) = Inr enc"
    "decode (flatten enc) = Inr d" "shape d = [length ls]" "map int (data d) = ls"
    using roundtrip_general [OF assms(2), of c] by blast
  have "enc = \<lparr>shape = [length ls, 13],
          data = map (\<lambda>u. if int (u mod 13) = ls ! (u div 13) then 1 else 0) [0..<length ls * 13]\<rparr>"
    using e(1) one_hot_value [OF assms(2)] by (simp add: labels_tensor_def)
  then have "shape (flatten enc) = [585]"
    using assms(1) by (simp add: flatten_def numel_def)
  then show ?thesis
    using e assms(1) by auto
qed

theorem one_hot_argmax_roundtrip_witness:
  "length [0, 1, 2, 3, 4, 5, 6, 7, 8, 9, 10, 11, 12, 12, 11, 10, 9, 8, 7, 6, 5, 4, 3, 2, 1, 0,
           3, 3, 3, 0, 0, 0, 7, 7, 7, 12, 12, 12, 1, 5, 9, 2, 6, 10, 4 :: int] = 45 \<and>
   (\<exists>enc d. and_then (labels_tensor (17 #
           [0, 1, 2, 3, 4, 5, 6, 7, 8, 9, 10, 11, 12, 12, 11, 10, 9, 8, 7, 6, 5, 4, 3, 2, 1, 0,
            3, 3, 3, 0, 0, 0, 7, 7, 7, 12, 12, 12, 1, 5, 9, 2, 6, 10, 4]))
              (\<lambda>t. one_hot t N_CLASSES) = Inr enc \<and>
           shape (flatten enc) = [585] \<and>
           decode (flatten enc) = Inr d \<and> shape d = [45] \<and>
           map int (data d) =
           [0, 1, 2, 3, 4, 5, 6, 7, 8, 9, 10, 11, 12, 12, 11, 10, 9, 8, 7, 6, 5, 4, 3, 2, 1, 0,
            3, 3, 3, 0, 0, 0, 7, 7, 7, 12, 12, 12, 1, 5, 9, 2, 6, 10, 4])"
  using one_hot_argmax_roundtrip
    [of "[0, 1, 2, 3, 4, 5, 6, 7, 8, 9, 10, 11, 12, 12, 11, 10, 9, 8, 7, 6, 5, 4, 3, 2, 1, 0,
          3, 3, 3, 0, 0, 0, 7, 7, 7, 12, 12, 12, 1, 5, 9, 2, 6, 10, 4]" 17]
  by simp

text \<open>
  C3: for a dataset of N items, the split of \<open>main\<close> (\<open>train_size = int(0.8 * N)\<close>,
  \<open>test_size = N - train_size\<close>, \<open>random_split\<close> over a permutation of the indices)
  gives two index subsets of these sizes; the sizes sum to N and the subsets are
  disjoint (and together hold every index).
\<close>

theorem split_sizes_and_disjoint:
  assumes "distinct perm" and "set perm = {0..<n}"
  shows "\<exists>train test. main_split n perm = Inr [train, test] \<and>
           length train = train_size n \<and> length test = test_size n \<and>
           train_size n + test_size n = n \<and>
           length train + length test = n \<and>
           set train \<inter> set test = {} \<and> set train \<union> set test = {0..<n}"
proof -
  note v = main_split_value [OF assms]
  have le: "train_size n \<le> n" by (rule train_size_le)
  have "set (take (train_size n) perm) \<inter> set (drop (train_size n) perm) = {}"
    using assms(1) by (simp add: set_take_disj_set_drop_if_distinct)
  moreover have "set (take (train_size n) perm) \<union> set (drop (train_size n) perm) = {0..<n}"
    using assms(2) by (metis append_take_drop_id set_append)
  ultimately show ?thesis
    using v le by (simp add: test_size_def)
qed

theorem split_sizes_and_disjoint_witness:
  "distinct [3, 1, 4, 0, 2 :: nat] \<and> set [3, 1, 4, 0, 2 :: nat] = {0..<5} \<and>
   main_split 5 [3, 1, 4, 0, 2] = Inr [[3, 1, 4, 0], [2]] \<and>
   (\<exists>train test. main_split 5 [3, 1, 4, 0, 2] = Inr [train, test] \<and>
           length train = train_size 5 \<and> length test = test_size 5 \<and>
           train_size 5 + test_size 5 = 5 \<and>
           length train + length test = 5 \<and>
           set train \<inter> set test = {} \<and> set train \<union> set test = {0..<5})"
proof -
  have d: "distinct [3, 1, 4, 0, 2 :: nat]" by simp
  have s: "set [3, 1, 4, 0, 2 :: nat] = {0..<5}" by auto
  have t: "train_size 5 = 4" by (simp add: train_size_div)
  have m: "main_split 5 [3, 1, 4, 0, 2] = Inr [[3, 1, 4, 0], [2]]"
    by (simp add: main_split_def random_split_def test_size_def t)
  show ?thesis
    by (intro conjI d s m split_sizes_and_disjoint [OF d s])
qed

text \<open>
  C4: when, for every batch of the held-out set, the arg-max of every cell of the
  model output equals the arg-max of that cell of the labels, and the set has at
  least one cell, the loop of \<open>evaluate\<close> counts as many correct cells as cells,
  and the accuracy \<open>correct / total * 100\<close> that \<open>evaluate\<close> returns is 100.
\<close>

theorem evaluate_all_correct_is_100:
  assumes "\<forall>(x, l) \<in> set test_loader.
             \<exists>out d. model x = Inr out \<and> decode out = Inr d \<and> decode l = Inr d"
    and "\<exists>(x, l) \<in> set test_loader. \<exists>d. decode l = Inr d \<and> 0 < numel (shape d)"
  shows "evaluate model test_loader = Inr 100 \<and>
         (\<exists>cells. 0 < cells \<and> evaluate_loop model test_loader 0 0 = Inr (cells, cells))"
proof -
  obtain s where s: "evaluate_loop model test_loader 0 0 = Inr (0 + s, 0 + s)"
    "\<forall>(x, l) \<in> set test_loader. \<forall>d. decode l = Inr d \<longrightarrow> numel (shape d) \<le> s"
    using evaluate_loop_all_correct [OF assms(1), of 0 0] by blast
  have "0 < s" using assms(2) s(2) by fastforce
  then show ?thesis
    using s(1) evaluate_all_correct [OF assms] by auto
qed

theorem evaluate_all_correct_is_100_witness:
  "evaluate (\<lambda>x. Inr x)
     [(\<lparr>shape = [1, 26], data = [0, 1, 0, 0, 0, 0, 0, 0, 0, 0, 0, 0, 0,
                                   0, 0, 0, 0, 0, 0, 0, 5, 0, 0, 0, 0, 0 :: real]\<rparr>,
       \<lparr>shape = [1, 26], data = [0, 1, 0, 0, 0, 0, 0, 0, 0, 0, 0, 0, 0,
                                   0, 0, 0, 0, 0, 0, 0, 1, 0, 0, 0, 0, 0 :: int]\<rparr>)] = Inr 100"
proof -
  let ?x = "\<lparr>shape = [1, 26], data = [0, 1, 0, 0, 0, 0, 0, 0, 0, 0, 0, 0, 0,
                                   0, 0, 0, 0, 0, 0, 0, 5, 0, 0, 0, 0, 0 :: real]\<rparr>"
  let ?l = "\<lparr>shape = [1, 26], data = [0, 1, 0, 0, 0, 0, 0, 0, 0, 0, 0, 0, 0,
                                   0, 0, 0, 0, 0, 0, 0, 1, 0, 0, 0, 0, 0 :: int]\<rparr>"
  have x: "decode ?x = Inr \<lparr>shape = [2], data = [1, 7]\<rparr>"
    by code_simp
  have l: "decode ?l = Inr \<lparr>shape = [2], data = [1, 7]\<rparr>"
    by code_simp
  have a: "\<forall>(x, l) \<in> set [(?x, ?l)].
             \<exists>out d. (\<lambda>x. Inr x) x = Inr out \<and> decode out = Inr d \<and> decode l = Inr d"
    using x l by simp
  have b: "\<exists>(x, l) \<in> set [(?x, ?l)]. \<exists>d. decode l = Inr d \<and> 0 < numel (shape d)"
    using l by (simp add: numel_def)
  show ?thesis
    using evaluate_all_correct_is_100 [OF a b] by simp
qed








text \<open>
  C8: the calls that \<open>main\<close> makes on the trainer are, in every run, a first part of
  train, evaluate, save_model, print_weights in this order (an exception ends the
  run); and when the construction and the first three calls return, \<open>main\<close> makes
  exactly these four calls in this order.
\<close>

theorem main_call_order:
  "(\<exists>k. fst (main env w) =
      take k [Trainer_train, Trainer_evaluate, Trainer_save_model, Trainer_print_weights]) \<and>
   (\<forall>w0 w1 w2 w3.
      construct env w = Inr w0 \<and> train_body env w0 = Inr w1 \<and>
      evaluate_body env w1 = Inr w2 \<and> save_model_body env w2 = Inr w3 \<longrightarrow>
      main env w =
        ([Trainer_train, Trainer_evaluate, Trainer_save_model, Trainer_print_weights],
         print_weights_body env w3))"
  using main_calls_prefix [of env w] main_calls_all [of env w] by blast

theorem main_call_order_witness:
  "main \<lparr>construct = (\<lambda>w. Inr (w + 1)), train_body = (\<lambda>w. Inr (w + 50)),
         evaluate_body = (\<lambda>w. Inr w), save_model_body = (\<lambda>w. Inr (w * 2)),
         print_weights_body = (\<lambda>w. Inr w)\<rparr> (0 :: nat) =
     ([Trainer_train, Trainer_evaluate, Trainer_save_model, Trainer_print_weights], Inr 102)"
proof -
  let ?env = "\<lparr>construct = (\<lambda>w :: nat. Inr (w + 1) :: py_error + nat),
         train_body = (\<lambda>w. Inr (w + 50)),
         evaluate_body = (\<lambda>w. Inr w), save_model_body = (\<lambda>w. Inr (w * 2)),
         print_weights_body = (\<lambda>w. Inr w)\<rparr>"
  have "construct ?env 0 = Inr 1 \<and> train_body ?env 1 = Inr 51 \<and>
      evaluate_body ?env 51 = Inr 51 \<and> save_model_body ?env 51 = Inr 102"
    by simp
  then have "main ?env 0 =
        ([Trainer_train, Trainer_evaluate, Trainer_save_model, Trainer_print_weights],
         print_weights_body ?env 102)"
    using main_call_order [of ?env 0] by blast
  then show ?thesis by simp
qed





end
